theory Spec2Isabelle
  imports Main
begin

section \<open>Python values and builtins used by eval.py\<close>

text \<open>
  Exceptions are values. \<open>ValueError\<close> is what \<^verbatim>\<open>float\<close> raises on a string that is
  not a number and what unpacking raises on a sequence of the wrong length;
  \<open>IndexError\<close> is what a subscript out of range raises; \<open>UnicodeDecodeError\<close> is what
  \<^verbatim>\<open>bytes.decode('utf-8')\<close> raises on bytes that are not UTF-8. \<open>Raised\<close> stands for
  whatever a collaborator (the parser, the deprel map) raises.
\<close>

datatype error = ValueError | IndexError | UnicodeDecodeError | Raised string

text \<open>
  Text is \<open>string\<close>; a \<open>char\<close> is read as the code point of the same number (0 to 255).
\<close>

definition NL :: string where
  "NL = [CHR 0x0A]"

definition TAB :: string where
  "TAB = [CHR 0x09]"

text \<open>\<^verbatim>\<open>xs[i]\<close> for a non-negative index: IndexError when out of range.\<close>

definition getitem :: "'a list \<Rightarrow> nat \<Rightarrow> error + 'a" where
  "getitem xs i = (if i < length xs then Inr (xs ! i) else Inl IndexError)"

text \<open>\<^verbatim>\<open>xs[-2]\<close>: the element before the last, IndexError on fewer than two elements.\<close>

definition getitem_neg2 :: "'a list \<Rightarrow> error + 'a" where
  "getitem_neg2 xs = (if 2 \<le> length xs then Inr (xs ! (length xs - 2)) else Inl IndexError)"

text \<open>\<^verbatim>\<open>sep.join(xs)\<close>.\<close>

fun join :: "string \<Rightarrow> string list \<Rightarrow> string" where
  "join sep [] = []"
| "join sep [x] = x"
| "join sep (x # y # ys) = x @ sep @ join sep (y # ys)"

text \<open>
  \<^verbatim>\<open>s.split(c, maxsplit)\<close> for a separator of one character: cut at the first
  \<open>maxsplit\<close> occurrences of \<open>c\<close>, from the left. \<^verbatim>\<open>s.rsplit(c, maxsplit)\<close> cuts at the
  last \<open>maxsplit\<close> occurrences, which is the split of the reversed string, read backwards.
\<close>

fun py_split :: "char \<Rightarrow> nat \<Rightarrow> string \<Rightarrow> string list" where
  "py_split c 0 s = [s]"
| "py_split c (Suc n) s =
     (if c \<in> set s
      then takeWhile (\<lambda>x. x \<noteq> c) s # py_split c n (tl (dropWhile (\<lambda>x. x \<noteq> c) s))
      else [s])"

definition py_rsplit :: "char \<Rightarrow> nat \<Rightarrow> string \<Rightarrow> string list" where
  "py_rsplit c n s = rev (map rev (py_split c n (rev s)))"

text \<open>
  \<^verbatim>\<open>str.isspace\<close> on the code points below 256, and \<^verbatim>\<open>s.rstrip()\<close>.
\<close>

definition isspace :: "char \<Rightarrow> bool" where
  "isspace c = (c \<in> {CHR 0x09, CHR 0x0A, CHR 0x0B, CHR 0x0C, CHR 0x0D, CHR 0x1C, CHR 0x1D,
                      CHR 0x1E, CHR 0x1F, CHR 0x20, CHR 0x85, CHR 0xA0})"

definition rstrip :: "string \<Rightarrow> string" where
  "rstrip s = rev (dropWhile isspace (rev s))"

text \<open>\<^verbatim>\<open>str(n)\<close> for an integer: decimal digits, a minus sign when negative.\<close>

definition digit_char :: "nat \<Rightarrow> char" where
  "digit_char d = ''0123456789'' ! d"

function str_nat :: "nat \<Rightarrow> string" where
  "str_nat n = (if n < 10 then [digit_char n] else str_nat (n div 10) @ [digit_char (n mod 10)])"
  by pat_completeness auto
termination
  by (relation "measure id") auto

declare str_nat.simps [simp del]

definition str_int :: "int \<Rightarrow> string" where
  "str_int i = (if i < 0 then CHR ''-'' # str_nat (nat (- i)) else str_nat (nat i))"

subsection \<open>float(s)\<close>

text \<open>
  The only operation on floats in eval.py is \<^verbatim>\<open>float(s)\<close> on a string. A float is
  modelled by the literal it was read from (surrounding white space and digit-grouping
  underscores removed): \<open>PyFloat ''88.2''\<close> is Python's \<^verbatim>\<open>float('88.2')\<close>, that is
  \<^verbatim>\<open>88.2\<close>. Equal literals give equal floats; no arithmetic or rounding is modelled.

  \<open>py_float\<close> accepts what CPython's \<^verbatim>\<open>float\<close> accepts: optional white space around,
  an optional sign, then \<^verbatim>\<open>inf\<close>, \<^verbatim>\<open>infinity\<close> or \<^verbatim>\<open>nan\<close> in any letter case, or
  decimal digits with an optional point and an optional exponent, with single underscores
  allowed between digits. Everything else raises ValueError.
\<close>

datatype pyfloat = PyFloat string

definition isdigit :: "char \<Rightarrow> bool" where
  "isdigit c = (c \<in> set ''0123456789'')"

definition float_space :: "char \<Rightarrow> bool" where
  "float_space c = (c \<in> {CHR 0x09, CHR 0x0A, CHR 0x0B, CHR 0x0C, CHR 0x0D, CHR 0x20,
                          CHR 0x85, CHR 0xA0})"

definition float_strip :: "string \<Rightarrow> string" where
  "float_strip s = rev (dropWhile float_space (rev (dropWhile float_space s)))"

text \<open>An underscore must have a digit on each side; \<open>prev\<close> is the character before.\<close>

fun underscores_ok :: "char option \<Rightarrow> string \<Rightarrow> bool" where
  "underscores_ok prev [] = (prev \<noteq> Some CHR ''_'')"
| "underscores_ok prev (c # cs) =
     (if c = CHR ''_''
      then (case prev of None \<Rightarrow> False | Some p \<Rightarrow> isdigit p) \<and> underscores_ok (Some c) cs
      else (prev \<noteq> Some CHR ''_'' \<or> isdigit c) \<and> underscores_ok (Some c) cs)"

definition ascii_lower :: "char \<Rightarrow> char" where
  "ascii_lower c =
     (case map_of (zip ''ABCDEFGHIJKLMNOPQRSTUVWXYZ'' ''abcdefghijklmnopqrstuvwxyz'') c of
        None \<Rightarrow> c | Some l \<Rightarrow> l)"

definition inf_or_nan :: "string \<Rightarrow> bool" where
  "inf_or_nan s = (map ascii_lower s \<in> {''inf'', ''infinity'', ''nan''})"

definition unsigned :: "string \<Rightarrow> string" where
  "unsigned s = (case s of [] \<Rightarrow> [] | c # cs \<Rightarrow> if c = CHR ''+'' \<or> c = CHR ''-'' then cs else s)"

definition exponent_ok :: "string \<Rightarrow> bool" where
  "exponent_ok s =
     (case s of
        [] \<Rightarrow> True
      | c # cs \<Rightarrow> (c = CHR ''e'' \<or> c = CHR ''E'') \<and> unsigned cs \<noteq> [] \<and> list_all isdigit (unsigned cs))"

definition number_ok :: "string \<Rightarrow> bool" where
  "number_ok s =
     (let ip = takeWhile isdigit s;
          r = dropWhile isdigit s;
          fp = (case r of [] \<Rightarrow> [] | c # cs \<Rightarrow> if c = CHR ''.'' then takeWhile isdigit cs else []);
          e = (case r of [] \<Rightarrow> [] | c # cs \<Rightarrow> if c = CHR ''.'' then dropWhile isdigit cs else r)
      in (ip \<noteq> [] \<or> fp \<noteq> []) \<and> exponent_ok e)"

definition py_float :: "string \<Rightarrow> error + pyfloat" where
  "py_float s =
     (let t = float_strip s;
          u = filter (\<lambda>c. c \<noteq> CHR ''_'') t
      in if underscores_ok None t \<and> (inf_or_nan (unsigned u) \<or> number_ok (unsigned u))
         then Inr (PyFloat u) else Inl ValueError)"

section \<open>exec_eval: running the external scorer\<close>

text \<open>
  The scorer is an external program. \<open>subprocess.run\<close> of the fixed prefix
  \<^verbatim>\<open>[Evaluator.PERL, Evaluator.SCRIPT]\<close> followed by arguments is a parameter
  \<open>run\<close> of type \<open>scorer\<close>: it maps the arguments to the completed process.

  The two captured streams of the process are bytes. A byte stream is identified by what
  \<^verbatim>\<open>.decode('utf-8')\<close> makes of it: \<open>Text s\<close> are the bytes that decode to the text
  \<open>s\<close>, \<open>Undecodable\<close> are bytes that are not UTF-8, on which the decoding raises.

  A file argument is either a path of the file system, whose content the program does not
  know (the configured gold file), or a \<^verbatim>\<open>NamedTemporaryFile\<close>, identified by the text
  written to it.
\<close>

datatype stream = Text string | Undecodable

definition decode_utf8 :: "stream \<Rightarrow> error + string" where
  "decode_utf8 bytes = (case bytes of Text s \<Rightarrow> Inr s | Undecodable \<Rightarrow> Inl UnicodeDecodeError)"

record proc =
  returncode :: int
  stdout :: stream
  stderr :: stream

text \<open>
  Line 108: \<^verbatim>\<open>output = (p.stdout if p.returncode == 0 else p.stderr).decode('utf-8')\<close>.
  Only the stream that is chosen is decoded.
\<close>

definition proc_output :: "proc \<Rightarrow> error + string" where
  "proc_output p = decode_utf8 (if returncode p = 0 then stdout p else stderr p)"

datatype fileref = Path string | Temp string

datatype arg = Opt string | File fileref

type_synonym scorer = "arg list \<Rightarrow> proc"

record result =
  code :: int
  raw :: string
  result_UAS :: "pyfloat option"
  result_LAS :: "pyfloat option"

text \<open>The command line of exec_eval, after the fixed prefix.\<close>

definition exec_command :: "fileref \<Rightarrow> fileref \<Rightarrow> bool \<Rightarrow> arg list" where
  "exec_command parsed_file gold_file show_details =
     [Opt ''-g'', File gold_file, Opt ''-s'', File parsed_file]
       @ (if \<not> show_details then [Opt ''-q''] else [])"

text \<open>\<^verbatim>\<open>float(line.rsplit(' ', 2)[-2])\<close>.\<close>

definition score_field :: "string \<Rightarrow> error + pyfloat" where
  "score_field line =
     (case getitem_neg2 (py_rsplit CHR '' '' 2 line) of
        Inl e \<Rightarrow> Inl e
      | Inr f \<Rightarrow> py_float f)"

text \<open>The list comprehension over the lines: left to right, the first raise wins.\<close>

fun score_fields :: "string list \<Rightarrow> error + pyfloat list" where
  "score_fields [] = Inr []"
| "score_fields (l # ls) =
     (case score_field l of
        Inl e \<Rightarrow> Inl e
      | Inr v \<Rightarrow> (case score_fields ls of Inl e \<Rightarrow> Inl e | Inr vs \<Rightarrow> Inr (v # vs)))"

text \<open>
  Lines 116 to 118: the first two lines of the output, a float from each, unpacked into
  (LAS, UAS). Unpacking anything but two values raises ValueError.
\<close>

definition parse_scores :: "string \<Rightarrow> error + (pyfloat \<times> pyfloat)" where
  "parse_scores output =
     (case score_fields (take 2 (py_split CHR 0x0A 2 output)) of
        Inl e \<Rightarrow> Inl e
      | Inr vs \<Rightarrow> (case vs of [las, uas] \<Rightarrow> Inr (las, uas) | _ \<Rightarrow> Inl ValueError))"

text \<open>
  exec_eval returns the command it printed to stderr and ran, and either the result
  dictionary or the exception raised while decoding or parsing the output.
\<close>

definition exec_eval :: "scorer \<Rightarrow> fileref \<Rightarrow> fileref \<Rightarrow> bool \<Rightarrow> arg list \<times> (error + result)" where
  "exec_eval run parsed_file gold_file show_details =
     (let command = exec_command parsed_file gold_file show_details;
          p = run command
      in (command,
          case proc_output p of
            Inl e \<Rightarrow> Inl e
          | Inr output \<Rightarrow>
              (let result = \<lparr>code = returncode p, raw = output,
                             result_UAS = None, result_LAS = None\<rparr>
               in if returncode p = 0
                  then (case parse_scores output of
                          Inl e \<Rightarrow> Inl e
                        | Inr (las, uas) \<Rightarrow>
                            Inr (result\<lparr>result_LAS := Some las, result_UAS := Some uas\<rparr>))
                  else Inr result)))"

section \<open>write_conll: the treebank encoder\<close>

text \<open>
  A token is a dictionary with the ten keys of the treebank format. The keys \<^verbatim>\<open>id\<close>
  and \<^verbatim>\<open>lemma\<close> are named \<open>token_id\<close> and \<open>token_lemma\<close> here.
\<close>

record token =
  token_id :: int
  form :: string
  token_lemma :: string
  cpostag :: string
  postag :: string
  feats :: string
  head :: int
  deprel :: string
  phead :: string
  pdeprel :: string

text \<open>
  The seventh and eighth fields of a line: \<^verbatim>\<open>str(heads[i][j])\<close> and
  \<^verbatim>\<open>deprels[i][j]\<close> when the argument is given, the token's own field when it is
  \<^verbatim>\<open>None\<close>. A subscript out of range raises IndexError.
\<close>

definition head_field :: "int list list option \<Rightarrow> nat \<Rightarrow> nat \<Rightarrow> token \<Rightarrow> error + string" where
  "head_field heads i j t =
     (case heads of
        None \<Rightarrow> Inr (str_int (head t))
      | Some hs \<Rightarrow>
          (case getitem hs i of
             Inl e \<Rightarrow> Inl e
           | Inr row \<Rightarrow> (case getitem row j of Inl e \<Rightarrow> Inl e | Inr h \<Rightarrow> Inr (str_int h))))"

definition deprel_field :: "string list list option \<Rightarrow> nat \<Rightarrow> nat \<Rightarrow> token \<Rightarrow> error + string" where
  "deprel_field deprels i j t =
     (case deprels of
        None \<Rightarrow> Inr (deprel t)
      | Some ds \<Rightarrow>
          (case getitem ds i of
             Inl e \<Rightarrow> Inl e
           | Inr row \<Rightarrow> getitem row j))"

text \<open>Lines 80 to 91: the line of token \<open>j\<close> of sentence \<open>i\<close>.\<close>

definition token_line ::
  "int list list option \<Rightarrow> string list list option \<Rightarrow> nat \<Rightarrow> nat \<Rightarrow> token \<Rightarrow> error + string" where
  "token_line heads deprels i j t =
     (case head_field heads i j t of
        Inl e \<Rightarrow> Inl e
      | Inr h \<Rightarrow>
          (case deprel_field deprels i j t of
             Inl e \<Rightarrow> Inl e
           | Inr d \<Rightarrow>
               Inr (join TAB [str_int (token_id t), form t, token_lemma t, cpostag t, postag t,
                              feats t, h, d, phead t, pdeprel t])))"

text \<open>
  The inner loop from token \<open>j\<close> on and the outer loop from sentence \<open>i\<close> on. The value
  is the text written; an exception leaves the loops.
\<close>

fun write_tokens ::
  "int list list option \<Rightarrow> string list list option \<Rightarrow> nat \<Rightarrow> nat \<Rightarrow> token list \<Rightarrow> error + string" where
  "write_tokens heads deprels i j [] = Inr []"
| "write_tokens heads deprels i j (t # ts) =
     (case token_line heads deprels i j t of
        Inl e \<Rightarrow> Inl e
      | Inr line \<Rightarrow>
          (case write_tokens heads deprels i (Suc j) ts of
             Inl e \<Rightarrow> Inl e
           | Inr rest \<Rightarrow> Inr (line @ NL @ rest)))"

fun write_sentences ::
  "int list list option \<Rightarrow> string list list option \<Rightarrow> nat \<Rightarrow> token list list \<Rightarrow> error + string" where
  "write_sentences heads deprels i [] = Inr []"
| "write_sentences heads deprels i (toks # rest) =
     (case write_tokens heads deprels i 0 toks of
        Inl e \<Rightarrow> Inl e
      | Inr block \<Rightarrow>
          (case write_sentences heads deprels (Suc i) rest of
             Inl e \<Rightarrow> Inl e
           | Inr others \<Rightarrow> Inr (block @ NL @ others)))"

definition write_conll ::
  "token list list \<Rightarrow> int list list option \<Rightarrow> string list list option \<Rightarrow> error + string" where
  "write_conll sentences heads deprels = write_sentences heads deprels 0 sentences"

section \<open>The Evaluator\<close>

text \<open>
  The state of an Evaluator: the gold file, the five entries of \<^verbatim>\<open>_parsed\<close>, the
  messages given to the logger, and the scorer commands run so far (each one is also
  printed to stderr by exec_eval).
\<close>

record evaluator =
  gold_file :: string
  sentences :: "token list list"
  heads :: "int list list"
  deprels :: "string list list"
  UAS :: "pyfloat option"
  LAS :: "pyfloat option"
  logged :: "string list"
  executed :: "arg list list"

definition reset :: "evaluator \<Rightarrow> evaluator" where
  "reset ev = ev\<lparr>sentences := [], heads := [], deprels := [], UAS := None, LAS := None\<rparr>"

text \<open>
  The deprel map is a collaborator: \<open>lookup\<close> gives the label of an id or raises.
  \<^verbatim>\<open>[self._deprel_map.lookup(d if d > 0 else 0) for d in deprel]\<close>:
\<close>

fun lookup_row :: "(int \<Rightarrow> error + string) \<Rightarrow> int list \<Rightarrow> error + string list" where
  "lookup_row lookup [] = Inr []"
| "lookup_row lookup (d # ds) =
     (case lookup (if d > 0 then d else 0) of
        Inl e \<Rightarrow> Inl e
      | Inr l \<Rightarrow> (case lookup_row lookup ds of Inl e \<Rightarrow> Inl e | Inr ls \<Rightarrow> Inr (l # ls)))"

text \<open>
  \<^verbatim>\<open>list.extend\<close> on the generator of rows: each row is appended as soon as it is
  made, so a raise keeps the rows appended before it.
\<close>

fun extend_rows ::
  "(int \<Rightarrow> error + string) \<Rightarrow> string list list \<Rightarrow> int list list \<Rightarrow> error option \<times> string list list" where
  "extend_rows lookup acc [] = (None, acc)"
| "extend_rows lookup acc (r # rs) =
     (case lookup_row lookup r of
        Inl e \<Rightarrow> (Some e, acc)
      | Inr labels \<Rightarrow> extend_rows lookup (acc @ [labels]) rs)"

text \<open>
  Evaluator.append, named \<open>append_batch\<close> here. It returns the exception raised, if
  any, and the state it leaves.
  \<^verbatim>\<open>heads, deprels = zip(*parsed)\<close> gives the first and the second components of the
  pairs; on no pairs, \<^verbatim>\<open>zip()\<close> is empty and the unpacking raises ValueError.
\<close>

definition append_batch ::
  "(int \<Rightarrow> error + string) \<Rightarrow> evaluator \<Rightarrow> token list list \<Rightarrow> (int list \<times> int list) list
    \<Rightarrow> error option \<times> evaluator" where
  "append_batch lookup ev sents parsed =
     (let ev1 = ev\<lparr>sentences := sentences ev @ sents\<rparr>
      in if parsed = [] then (Some ValueError, ev1)
         else
           (let ev2 = ev1\<lparr>heads := heads ev1 @ map fst parsed\<rparr>;
                (err, ds) = extend_rows lookup (deprels ev2) (map snd parsed)
            in (err, ev2\<lparr>deprels := ds\<rparr>)))"

text \<open>
  report returns the exception raised, if any, and the state it leaves. \<open>heads\<close> and
  \<open>deprels\<close> of the state are lists, never \<^verbatim>\<open>None\<close>, so the hypothesis is always
  encoded with both overrides.
\<close>

definition report :: "scorer \<Rightarrow> evaluator \<Rightarrow> bool \<Rightarrow> error option \<times> evaluator" where
  "report run ev show_details =
     (case write_conll (sentences ev) (Some (heads ev)) (Some (deprels ev)) of
        Inl e \<Rightarrow> (Some e, ev)
      | Inr hyp \<Rightarrow>
          (case exec_eval run (Temp hyp) (Path (gold_file ev)) show_details of
             (c1, Inl e) \<Rightarrow> (Some e, ev\<lparr>executed := executed ev @ [c1]\<rparr>)
           | (c1, Inr r1) \<Rightarrow>
               (let ev1 = ev\<lparr>executed := executed ev @ [c1]\<rparr>;
                    store = (\<lambda>ev' r.
                      if code r = 0
                      then (None, ev'\<lparr>UAS := result_UAS r, LAS := result_LAS r,
                                      logged := logged ev' @ [''[evaluation]'' @ NL @ rstrip (raw r)]\<rparr>)
                      else (None, ev'\<lparr>logged := logged ev' @
                              [''[evaluation] ERROR('' @ str_int (code r) @ ''): '' @ rstrip (raw r)]\<rparr>))
                in if code r1 \<noteq> 0
                   then (case write_conll (sentences ev) None None of
                           Inl e \<Rightarrow> (Some e, ev1)
                         | Inr gold \<Rightarrow>
                             (case exec_eval run (Temp hyp) (Temp gold) show_details of
                                (c2, Inl e) \<Rightarrow> (Some e, ev1\<lparr>executed := executed ev1 @ [c2]\<rparr>)
                              | (c2, Inr r2) \<Rightarrow> store (ev1\<lparr>executed := executed ev1 @ [c2]\<rparr>) r2))
                   else store ev1 r1)))"

text \<open>
  A batch payload: the \<^verbatim>\<open>train\<close> flag, the model inputs \<^verbatim>\<open>data['xs'][:-1]\<close> and the
  token sequences \<^verbatim>\<open>data['xs'][-1]\<close>, each starting with the root token. The parser's
  \<open>parse\<close> is a collaborator: it gives one (heads, deprels) pair per sentence or raises.
\<close>

record 'x batch =
  train :: bool
  inputs :: "'x list"
  tokens :: "token list list"

definition on_batch_end ::
  "('x list \<Rightarrow> error + (int list \<times> int list) list) \<Rightarrow> (int \<Rightarrow> error + string) \<Rightarrow> evaluator
    \<Rightarrow> 'x batch \<Rightarrow> error option \<times> evaluator" where
  "on_batch_end parse lookup ev data =
     (if train data then (None, ev)
      else (case parse (inputs data) of
              Inl e \<Rightarrow> (Some e, ev)
            | Inr parsed \<Rightarrow> append_batch lookup ev (map (drop 1) (tokens data)) parsed))"

section \<open>Auxiliary notions and example inputs\<close>

text \<open>
  \<open>covers sents rows\<close>: there is a row for every sentence, in order, and each row is at
  least as long as its sentence. This is what \<^verbatim>\<open>heads[i][j]\<close> and \<^verbatim>\<open>deprels[i][j]\<close>
  need to be in range for every token.
\<close>

fun covers :: "'a list list \<Rightarrow> 'b list list \<Rightarrow> bool" where
  "covers [] rows = True"
| "covers (s # ss) [] = False"
| "covers (s # ss) (r # rs) = (length s \<le> length r \<and> covers ss rs)"

text \<open>The line of a token, given the texts of its head and deprel fields.\<close>

definition conll_line :: "token \<Rightarrow> string \<Rightarrow> string \<Rightarrow> string" where
  "conll_line t h d =
     str_int (token_id t) @ TAB @ form t @ TAB @ token_lemma t @ TAB @ cpostag t @ TAB @
     postag t @ TAB @ feats t @ TAB @ h @ TAB @ d @ TAB @ phead t @ TAB @ pdeprel t"

text \<open>
  The sentence of the spec's scenario, with its root token; a deprel map with two labels;
  a parser that predicts one sentence; an Evaluator as its constructor leaves it.
\<close>

definition dog :: token where
  "dog = \<lparr>token_id = 1, form = ''Dog'', token_lemma = ''dog'', cpostag = ''NOUN'', postag = ''NN'',
          feats = ''_'', head = 2, deprel = ''nsubj'', phead = ''_'', pdeprel = ''_''\<rparr>"

definition barks :: token where
  "barks = \<lparr>token_id = 2, form = ''barks'', token_lemma = ''bark'', cpostag = ''VERB'', postag = ''VBZ'',
            feats = ''_'', head = 0, deprel = ''root'', phead = ''_'', pdeprel = ''_''\<rparr>"

definition root :: token where
  "root = \<lparr>token_id = 0, form = ''<ROOT>'', token_lemma = ''<ROOT>'', cpostag = ''ROOT'',
           postag = ''ROOT'', feats = ''_'', head = 0, deprel = ''root'', phead = ''_'',
           pdeprel = ''_''\<rparr>"

definition example_parse :: "nat list \<Rightarrow> error + (int list \<times> int list) list" where
  "example_parse xs = Inr [([2, 0], [1, -1])]"

definition example_batch :: "bool \<Rightarrow> nat batch" where
  "example_batch tr = \<lparr>train = tr, inputs = [7, 8], tokens = [[root, dog, barks]]\<rparr>"

definition example_lookup :: "int \<Rightarrow> error + string" where
  "example_lookup i =
     (if i = 0 then Inr ''root'' else if i = 1 then Inr ''nsubj'' else Inl (Raised ''KeyError''))"

definition example_label :: "int \<Rightarrow> string" where
  "example_label i = (if i = 0 then ''root'' else ''nsubj'')"

definition fresh_evaluator :: evaluator where
  "fresh_evaluator = \<lparr>gold_file = ''gold.conll'', sentences = [], heads = [], deprels = [],
                       UAS = None, LAS = None, logged = [], executed = []\<rparr>"

text \<open>
  Scorers that answer every command alike: with the two lines of the spec's scenario, with
  the same lines carrying one more field after the score (a percent sign), and with a
  failure.
\<close>

definition claimed_stdout :: string where
  "claimed_stdout =
     ''Labeled   attachment score: 88.2'' @ NL @ ''Unlabeled attachment score: 91.4'' @ NL"

definition claimed_scorer :: scorer where
  "claimed_scorer command = \<lparr>returncode = 0, stdout = Text claimed_stdout, stderr = Text []\<rparr>"

definition percent_stdout :: string where
  "percent_stdout =
     ''Labeled   attachment score: 88.2 %'' @ NL @ ''Unlabeled attachment score: 91.4 %'' @ NL"

definition percent_scorer :: scorer where
  "percent_scorer command = \<lparr>returncode = 0, stdout = Text percent_stdout, stderr = Text []\<rparr>"

definition failing_scorer :: scorer where
  "failing_scorer command =
     \<lparr>returncode = 1, stdout = Text ''partial'', stderr = Text ''mismatch''\<rparr>"

text \<open>
  A scorer that exits with code 0 and prints nothing; a scorer that fails on the configured
  gold file and succeeds on a regenerated one; an Evaluator after one appended sentence.
\<close>

definition silent_scorer :: scorer where
  "silent_scorer command = \<lparr>returncode = 0, stdout = Text [], stderr = Text []\<rparr>"

definition accumulated_evaluator :: evaluator where
  "accumulated_evaluator =
     fresh_evaluator\<lparr>sentences := [[dog, barks]], heads := [[2, 0]],
                      deprels := [[''nsubj'', ''root'']]\<rparr>"

definition retry_scorer :: scorer where
  "retry_scorer command =
     (if File (Path ''gold.conll'') \<in> set command
      then \<lparr>returncode = 1, stdout = Text [], stderr = Text ''mismatch''\<rparr>
      else \<lparr>returncode = 0, stdout = Text percent_stdout, stderr = Text []\<rparr>)"

text \<open>
  A scorer that fails and writes bytes that are not UTF-8 to its standard error; an
  Evaluator after an append whose prediction has one entry for a sentence of two tokens.
\<close>

definition garbled_scorer :: scorer where
  "garbled_scorer command = \<lparr>returncode = 1, stdout = Text [], stderr = Undecodable\<rparr>"

definition short_evaluator :: evaluator where
  "short_evaluator =
     fresh_evaluator\<lparr>sentences := [[dog, barks]], heads := [[2]], deprels := [[''nsubj'']]\<rparr>"

section \<open>Splitting and parsing the scorer's output\<close>

lemma py_split_notin: "c \<notin> set s \<Longrightarrow> py_split c n s = [s]"
  by (cases n) simp_all

lemma py_split_cut:
  "c \<notin> set a \<Longrightarrow> py_split c (Suc n) (a @ c # b) = a # py_split c n b"
proof -
  assume a: "c \<notin> set a"
  then have d: "dropWhile (\<lambda>x. x \<noteq> c) a = []" and t: "takeWhile (\<lambda>x. x \<noteq> c) a = a"
    by auto
  show ?thesis
    by (simp add: takeWhile_tail dropWhile_append3 d t)
qed

text \<open>
  A line that ends in the fields \<open>f\<close> and \<open>g\<close>, separated by one space and free of
  spaces, after nothing or after a space: \<^verbatim>\<open>rsplit(' ', 2)[-2]\<close> is \<open>f\<close>.
\<close>

lemma rsplit_fields:
  assumes "CHR '' '' \<notin> set f" "CHR '' '' \<notin> set g" "pre = [] \<or> last pre = CHR '' ''"
  shows "getitem_neg2 (py_rsplit CHR '' '' 2 (pre @ f @ CHR '' '' # g)) = Inr f"
proof (cases "pre = []")
  case True
  have "py_split CHR '' '' 2 (rev g @ CHR '' '' # rev f) = [rev g, rev f]"
    using assms(1,2) by (simp add: numeral_2_eq_2 py_split_cut py_split_notin del: py_split.simps)
  then show ?thesis using True by (simp add: py_rsplit_def getitem_neg2_def)
next
  case False
  with assms(3) obtain q where q: "pre = q @ [CHR '' '']"
    by (metis append_butlast_last_id)
  have "py_split CHR '' '' 2 (rev g @ CHR '' '' # (rev f @ CHR '' '' # rev q)) = [rev g, rev f, rev q]"
    using assms(1,2) by (simp add: numeral_2_eq_2 py_split_cut del: py_split.simps(2))
  then show ?thesis using q by (simp add: py_rsplit_def getitem_neg2_def)
qed

lemma score_field_fields:
  assumes "CHR '' '' \<notin> set f" "CHR '' '' \<notin> set g" "pre = [] \<or> last pre = CHR '' ''"
  shows "score_field (pre @ f @ '' '' @ g) = py_float f"
  using rsplit_fields [OF assms] by (simp add: score_field_def)

lemma first_two_lines:
  assumes "CHR 0x0A \<notin> set l1" "CHR 0x0A \<notin> set l2" "rest = [] \<or> hd rest = CHR 0x0A"
  shows "take 2 (py_split CHR 0x0A 2 (l1 @ NL @ l2 @ rest)) = [l1, l2]"
proof (cases rest)
  case Nil
  then show ?thesis
    using assms(1,2) by (simp add: NL_def numeral_2_eq_2 py_split_cut py_split_notin del: py_split.simps)
next
  case (Cons c r)
  with assms(3) have "rest = CHR 0x0A # r" by simp
  then show ?thesis
    using assms(1,2) by (simp add: NL_def numeral_2_eq_2 py_split_cut del: py_split.simps(2))
qed

lemma parse_claimed: "parse_scores claimed_stdout = Inl ValueError"
  by code_simp

lemma parse_percent: "parse_scores percent_stdout = Inr (PyFloat ''88.2'', PyFloat ''91.4'')"
  by code_simp

text \<open>
  Claim C2, as stated: on exit code 0 and the output lines
  \<^verbatim>\<open>Labeled   attachment score: 88.2\<close> and \<^verbatim>\<open>Unlabeled attachment score: 91.4\<close>,
  score returns LAS = 88.2 and UAS = 91.4. It does not: the second-to-last field of each
  of these lines, cut at single spaces, is \<^verbatim>\<open>score:\<close>, and \<^verbatim>\<open>float('score:')\<close>
  raises ValueError.
\<close>

theorem exec_eval_claimed_lines_raise:
  "snd (exec_eval claimed_scorer (Temp []) (Path ''gold.conll'') False) = Inl ValueError"
  by (simp add: exec_eval_def proc_output_def decode_utf8_def claimed_scorer_def parse_claimed)

text \<open>
  Claim C2, amended: when each of the two lines carries one more space-separated field
  after the score (\<^verbatim>\<open>Labeled   attachment score: 88.2 %\<close> and
  \<^verbatim>\<open>Unlabeled attachment score: 91.4 %\<close>), score returns LAS = 88.2 and UAS = 91.4,
  the second-to-last space-separated field of each line.
\<close>

theorem exec_eval_percent_lines:
  "snd (exec_eval percent_scorer (Temp []) (Path ''gold.conll'') False) =
     Inr \<lparr>code = 0, raw = percent_stdout,
          result_UAS = Some (PyFloat ''91.4''), result_LAS = Some (PyFloat ''88.2'')\<rparr>"
  by (simp add: exec_eval_def proc_output_def decode_utf8_def percent_scorer_def parse_percent)

text \<open>
  Claim C3: when the scorer exits with code 0 and each of the first two lines of its
  (decoded) output ends in two fields separated by one space (\<open>f\<close> and \<open>g\<close>, free of spaces,
  at the start of the line or after a space) of which the first is accepted by
  \<^verbatim>\<open>float\<close>, exec_eval returns the float of the second-to-last field of the first line
  as LAS and that of the second line as UAS. The last field need not be a number.
\<close>

theorem exec_eval_scores:
  assumes "returncode (run (exec_command parsed_file gfile show_details)) = 0"
    and "stdout (run (exec_command parsed_file gfile show_details)) = Text (l1 @ NL @ l2 @ rest)"
    and "CHR 0x0A \<notin> set l1" and "CHR 0x0A \<notin> set l2" and "rest = [] \<or> hd rest = CHR 0x0A"
    and "l1 = pre1 @ f1 @ '' '' @ g1" and "CHR '' '' \<notin> set f1" and "CHR '' '' \<notin> set g1"
    and "pre1 = [] \<or> last pre1 = CHR '' ''"
    and "l2 = pre2 @ f2 @ '' '' @ g2" and "CHR '' '' \<notin> set f2" and "CHR '' '' \<notin> set g2"
    and "pre2 = [] \<or> last pre2 = CHR '' ''"
    and "py_float f1 = Inr las" and "py_float f2 = Inr uas"
  shows "snd (exec_eval run parsed_file gfile show_details) =
           Inr \<lparr>code = 0, raw = l1 @ NL @ l2 @ rest,
                result_UAS = Some uas, result_LAS = Some las\<rparr>"
proof -
  have s1: "score_field l1 = Inr las"
    using score_field_fields [of f1 g1 pre1] assms(6-9,14) by simp
  have s2: "score_field l2 = Inr uas"
    using score_field_fields [of f2 g2 pre2] assms(10-13,15) by simp
  have "parse_scores (l1 @ NL @ l2 @ rest) = Inr (las, uas)"
    unfolding parse_scores_def first_two_lines [OF assms(3-5)] by (simp add: s1 s2)
  then show ?thesis
    using assms(1,2) by (simp add: exec_eval_def proc_output_def decode_utf8_def)
qed

theorem exec_eval_scores_witness:
  "snd (exec_eval percent_scorer (Temp []) (Path ''gold.conll'') True) =
     Inr \<lparr>code = 0,
          raw = ''Labeled   attachment score: 88.2 %'' @ NL @ ''Unlabeled attachment score: 91.4 %'' @ NL,
          result_UAS = Some (PyFloat ''91.4''), result_LAS = Some (PyFloat ''88.2'')\<rparr>"
proof -
  have rc: "returncode (percent_scorer (exec_command (Temp []) (Path ''gold.conll'') True)) = 0"
    by (simp add: percent_scorer_def)
  have out: "stdout (percent_scorer (exec_command (Temp []) (Path ''gold.conll'') True)) =
      Text (''Labeled   attachment score: 88.2 %'' @ NL @ ''Unlabeled attachment score: 91.4 %'' @ NL)"
    by (simp add: percent_scorer_def percent_stdout_def)
  have n1: "CHR 0x0A \<notin> set ''Labeled   attachment score: 88.2 %''" by simp
  have n2: "CHR 0x0A \<notin> set ''Unlabeled attachment score: 91.4 %''" by simp
  have r: "NL = [] \<or> hd NL = CHR 0x0A" by (simp add: NL_def)
  have l1: "''Labeled   attachment score: 88.2 %'' = ''Labeled   attachment score: '' @ ''88.2'' @ '' '' @ ''%''"
    by simp
  have l2: "''Unlabeled attachment score: 91.4 %'' = ''Unlabeled attachment score: '' @ ''91.4'' @ '' '' @ ''%''"
    by simp
  have s1: "CHR '' '' \<notin> set ''88.2''" and s2: "CHR '' '' \<notin> set ''%''"
    and s3: "CHR '' '' \<notin> set ''91.4''" by simp_all
  have p1: "''Labeled   attachment score: '' = [] \<or> last ''Labeled   attachment score: '' = CHR '' ''"
    by simp
  have p2: "''Unlabeled attachment score: '' = [] \<or> last ''Unlabeled attachment score: '' = CHR '' ''"
    by simp
  have f1: "py_float ''88.2'' = Inr (PyFloat ''88.2'')" by code_simp
  have f2: "py_float ''91.4'' = Inr (PyFloat ''91.4'')" by code_simp
  show ?thesis
    by (rule exec_eval_scores [of percent_scorer "Temp []" "Path ''gold.conll''" True
        "''Labeled   attachment score: 88.2 %''" "''Unlabeled attachment score: 91.4 %''" NL
        "''Labeled   attachment score: ''" "''88.2''" "''%''"
        "''Unlabeled attachment score: ''" "''91.4''" "''%''"
        "PyFloat ''88.2''" "PyFloat ''91.4''", OF rc out n1 n2 r l1 s1 s2 p1 l2 s3 s2 p2 f1 f2])
qed

text \<open>
  Claim C8: every result that exec_eval returns carries as raw output the decoding of the
  scorer's standard output when the exit code is 0 and the decoding of its standard error
  otherwise; when the exit code is not 0, UAS and LAS of the result are both \<^verbatim>\<open>None\<close>,
  and the result is returned whenever the standard error decodes.
\<close>

theorem exec_eval_raw:
  "(returncode (run (exec_command parsed_file gfile show_details)) \<noteq> 0 \<longrightarrow>
      (\<forall>t. stderr (run (exec_command parsed_file gfile show_details)) = Text t \<longrightarrow>
         snd (exec_eval run parsed_file gfile show_details) =
           Inr \<lparr>code = returncode (run (exec_command parsed_file gfile show_details)),
                raw = t, result_UAS = None, result_LAS = None\<rparr>) \<and>
      (\<forall>r. snd (exec_eval run parsed_file gfile show_details) = Inr r \<longrightarrow>
         decode_utf8 (stderr (run (exec_command parsed_file gfile show_details))) = Inr (raw r) \<and>
         code r = returncode (run (exec_command parsed_file gfile show_details)) \<and>
         result_UAS r = None \<and> result_LAS r = None)) \<and>
   (returncode (run (exec_command parsed_file gfile show_details)) = 0 \<longrightarrow>
      (\<forall>r. snd (exec_eval run parsed_file gfile show_details) = Inr r \<longrightarrow>
         code r = 0 \<and>
         decode_utf8 (stdout (run (exec_command parsed_file gfile show_details))) = Inr (raw r)))"
  by (auto simp add: exec_eval_def proc_output_def decode_utf8_def Let_def
        split: sum.splits prod.splits stream.splits)

theorem exec_eval_raw_witness:
  "snd (exec_eval failing_scorer (Temp []) (Path ''gold.conll'') False) =
      Inr \<lparr>code = 1, raw = ''mismatch'', result_UAS = None, result_LAS = None\<rparr> \<and>
   Inr (raw (projr (snd (exec_eval percent_scorer (Temp []) (Path ''gold.conll'') False)))) =
      decode_utf8 (Text percent_stdout)"
proof -
  have a: "returncode (failing_scorer (exec_command (Temp []) (Path ''gold.conll'') False)) \<noteq> 0"
    and t: "stderr (failing_scorer (exec_command (Temp []) (Path ''gold.conll'') False)) =
      Text ''mismatch''"
    by (simp_all add: failing_scorer_def)
  have b: "returncode (percent_scorer (exec_command (Temp []) (Path ''gold.conll'') False)) = 0"
    by (simp add: percent_scorer_def)
  have c: "snd (exec_eval percent_scorer (Temp []) (Path ''gold.conll'') False) =
     Inr (projr (snd (exec_eval percent_scorer (Temp []) (Path ''gold.conll'') False)))"
    by (simp add: exec_eval_def proc_output_def decode_utf8_def percent_scorer_def parse_percent)
  have "snd (exec_eval failing_scorer (Temp []) (Path ''gold.conll'') False) =
      Inr \<lparr>code = returncode (failing_scorer (exec_command (Temp []) (Path ''gold.conll'') False)),
           raw = ''mismatch'', result_UAS = None, result_LAS = None\<rparr>"
    by (rule exec_eval_raw [of failing_scorer "Temp []" "Path ''gold.conll''" False,
          THEN conjunct1, rule_format, THEN conjunct1, rule_format, OF a t])
  moreover have "decode_utf8 (stdout (percent_scorer (exec_command (Temp []) (Path ''gold.conll'') False))) =
      Inr (raw (projr (snd (exec_eval percent_scorer (Temp []) (Path ''gold.conll'') False))))"
    using exec_eval_raw [of percent_scorer "Temp []" "Path ''gold.conll''" False,
          THEN conjunct2, rule_format, OF b c] by (rule conjunct2)
  ultimately show ?thesis
    by (simp add: failing_scorer_def percent_scorer_def)
qed

section \<open>write_conll\<close>

lemma drop_eq_Cons:
  assumes "h # hr = drop j row"
  shows "j < length row" and "row ! j = h" and "drop (Suc j) row = hr"
proof -
  show j: "j < length row"
    using assms by (metis drop_all linorder_not_less list.distinct(1))
  from Cons_nth_drop_Suc [OF j] assms have "row ! j # drop (Suc j) row = h # hr" by simp
  then show "row ! j = h" "drop (Suc j) row = hr" by simp_all
qed

lemma write_tokens_zip:
  assumes "case given_heads of None \<Rightarrow> hr = map head ts
             | Some hs \<Rightarrow> i < length hs \<and> hr = drop j (hs ! i) \<and> length ts \<le> length hr"
    and "case given_deprels of None \<Rightarrow> dr = map deprel ts
             | Some ds \<Rightarrow> i < length ds \<and> dr = drop j (ds ! i) \<and> length ts \<le> length dr"
  shows "write_tokens given_heads given_deprels i j ts =
           Inr (concat (map (\<lambda>(t, h, d). conll_line t (str_int h) d @ NL) (zip ts (zip hr dr))))"
  using assms
proof (induction ts arbitrary: j hr dr)
  case Nil
  then show ?case by simp
next
  case (Cons t ts)
  obtain h hr' where hr: "hr = h # hr'"
    using Cons.prems(1) by (cases hr) (auto split: option.splits)
  obtain d dr' where dr: "dr = d # dr'"
    using Cons.prems(2) by (cases dr) (auto split: option.splits)
  have hf: "head_field given_heads i j t = Inr (str_int h)"
  proof (cases given_heads)
    case None
    with Cons.prems(1) hr show ?thesis by (simp add: head_field_def)
  next
    case (Some hs)
    with Cons.prems(1) hr have i: "i < length hs" and e: "h # hr' = drop j (hs ! i)" by simp_all
    show ?thesis
      using Some i drop_eq_Cons(1,2) [OF e] by (simp add: head_field_def getitem_def)
  qed
  have df: "deprel_field given_deprels i j t = Inr d"
  proof (cases given_deprels)
    case None
    with Cons.prems(2) dr show ?thesis by (simp add: deprel_field_def)
  next
    case (Some ds)
    with Cons.prems(2) dr have i: "i < length ds" and e: "d # dr' = drop j (ds ! i)" by simp_all
    show ?thesis
      using Some i drop_eq_Cons(1,2) [OF e] by (simp add: deprel_field_def getitem_def)
  qed
  have line: "token_line given_heads given_deprels i j t = Inr (conll_line t (str_int h) d)"
    by (simp add: token_line_def hf df conll_line_def)
  have h': "case given_heads of None \<Rightarrow> hr' = map head ts
             | Some hs \<Rightarrow> i < length hs \<and> hr' = drop (Suc j) (hs ! i) \<and> length ts \<le> length hr'"
  proof (cases given_heads)
    case None
    with Cons.prems(1) hr show ?thesis by simp
  next
    case (Some hs)
    with Cons.prems(1) hr have i: "i < length hs" and e: "h # hr' = drop j (hs ! i)"
      and l: "length ts \<le> length hr'" by simp_all
    show ?thesis
      using Some i l drop_eq_Cons(3) [OF e] by simp
  qed
  have d': "case given_deprels of None \<Rightarrow> dr' = map deprel ts
             | Some ds \<Rightarrow> i < length ds \<and> dr' = drop (Suc j) (ds ! i) \<and> length ts \<le> length dr'"
  proof (cases given_deprels)
    case None
    with Cons.prems(2) dr show ?thesis by simp
  next
    case (Some ds)
    with Cons.prems(2) dr have i: "i < length ds" and e: "d # dr' = drop j (ds ! i)"
      and l: "length ts \<le> length dr'" by simp_all
    show ?thesis
      using Some i l drop_eq_Cons(3) [OF e] by simp
  qed
  show ?case
    by (simp add: line Cons.IH [OF h' d'] hr dr)
qed


lemma write_sentences_zip:
  assumes "case given_heads of None \<Rightarrow> hrows = map (map head) sents
             | Some hs \<Rightarrow> hrows = drop i hs \<and> covers sents hrows"
    and "case given_deprels of None \<Rightarrow> drows = map (map deprel) sents
             | Some ds \<Rightarrow> drows = drop i ds \<and> covers sents drows"
  shows "write_sentences given_heads given_deprels i sents =
           Inr (concat (map (\<lambda>(toks, hr, dr).
                  concat (map (\<lambda>(t, h, d). conll_line t (str_int h) d @ NL) (zip toks (zip hr dr))) @ NL)
                (zip sents (zip hrows drows))))"
  using assms
proof (induction sents arbitrary: i hrows drows)
  case Nil
  then show ?case by simp
next
  case (Cons toks rest)
  obtain hr hrows' where hrows: "hrows = hr # hrows'"
    using Cons.prems(1) by (cases hrows) (auto split: option.splits)
  obtain dr drows' where drows: "drows = dr # drows'"
    using Cons.prems(2) by (cases drows) (auto split: option.splits)
  have th: "case given_heads of None \<Rightarrow> hr = map head toks
             | Some hs \<Rightarrow> i < length hs \<and> hr = drop 0 (hs ! i) \<and> length toks \<le> length hr"
  proof (cases given_heads)
    case None
    with Cons.prems(1) hrows show ?thesis by simp
  next
    case (Some hs)
    with Cons.prems(1) have "hrows = drop i hs" and "covers (toks # rest) hrows"
      by auto
    then have e: "hr # hrows' = drop i hs" and c: "covers (toks # rest) (hr # hrows')"
      by (simp_all add: hrows)
    show ?thesis
      using Some c drop_eq_Cons(1,2) [OF e] by simp
  qed
  have td: "case given_deprels of None \<Rightarrow> dr = map deprel toks
             | Some ds \<Rightarrow> i < length ds \<and> dr = drop 0 (ds ! i) \<and> length toks \<le> length dr"
  proof (cases given_deprels)
    case None
    with Cons.prems(2) drows show ?thesis by simp
  next
    case (Some ds)
    with Cons.prems(2) have "drows = drop i ds" and "covers (toks # rest) drows"
      by auto
    then have e: "dr # drows' = drop i ds" and c: "covers (toks # rest) (dr # drows')"
      by (simp_all add: drows)
    show ?thesis
      using Some c drop_eq_Cons(1,2) [OF e] by simp
  qed
  have sh: "case given_heads of None \<Rightarrow> hrows' = map (map head) rest
             | Some hs \<Rightarrow> hrows' = drop (Suc i) hs \<and> covers rest hrows'"
  proof (cases given_heads)
    case None
    with Cons.prems(1) hrows show ?thesis by simp
  next
    case (Some hs)
    with Cons.prems(1) have "hrows = drop i hs" and "covers (toks # rest) hrows"
      by auto
    then have e: "hr # hrows' = drop i hs" and c: "covers (toks # rest) (hr # hrows')"
      by (simp_all add: hrows)
    show ?thesis
      using Some c drop_eq_Cons(3) [OF e] by simp
  qed
  have sd: "case given_deprels of None \<Rightarrow> drows' = map (map deprel) rest
             | Some ds \<Rightarrow> drows' = drop (Suc i) ds \<and> covers rest drows'"
  proof (cases given_deprels)
    case None
    with Cons.prems(2) drows show ?thesis by simp
  next
    case (Some ds)
    with Cons.prems(2) have "drows = drop i ds" and "covers (toks # rest) drows"
      by auto
    then have e: "dr # drows' = drop i ds" and c: "covers (toks # rest) (dr # drows')"
      by (simp_all add: drows)
    show ?thesis
      using Some c drop_eq_Cons(3) [OF e] by simp
  qed
  show ?case
    by (simp add: write_tokens_zip [OF th td] Cons.IH [OF sh sd] hrows drows)
qed





section \<open>append and on_batch_end\<close>

lemma lookup_row_labels:
  assumes "\<forall>d\<in>set row. (d > 0 \<longrightarrow> lookup d = Inr (label d)) \<and> (d \<le> 0 \<longrightarrow> lookup 0 = Inr (label 0))"
  shows "lookup_row lookup row = Inr (map (\<lambda>d. if d > 0 then label d else label 0) row)"
  using assms
proof (induction row)
  case Nil
  then show ?case by simp
next
  case (Cons d ds)
  from Cons.prems
  have "\<forall>d\<in>set ds. (d > 0 \<longrightarrow> lookup d = Inr (label d)) \<and> (d \<le> 0 \<longrightarrow> lookup 0 = Inr (label 0))"
    by simp
  then have ih: "lookup_row lookup ds = Inr (map (\<lambda>d. if d > 0 then label d else label 0) ds)"
    by (rule Cons.IH)
  have "lookup (if d > 0 then d else 0) = Inr (if d > 0 then label d else label 0)"
    using Cons.prems by (cases "d > 0") simp_all
  with ih show ?case by simp
qed

lemma extend_rows_labels:
  assumes "\<forall>row\<in>set rows. \<forall>d\<in>set row.
             (d > 0 \<longrightarrow> lookup d = Inr (label d)) \<and> (d \<le> 0 \<longrightarrow> lookup 0 = Inr (label 0))"
  shows "extend_rows lookup acc rows =
           (None, acc @ map (map (\<lambda>d. if d > 0 then label d else label 0)) rows)"
  using assms
proof (induction rows arbitrary: acc)
  case Nil
  then show ?case by simp
next
  case (Cons r rs)
  from Cons.prems have r: "\<forall>d\<in>set r.
      (d > 0 \<longrightarrow> lookup d = Inr (label d)) \<and> (d \<le> 0 \<longrightarrow> lookup 0 = Inr (label 0))"
    and rs: "\<forall>row\<in>set rs. \<forall>d\<in>set row.
      (d > 0 \<longrightarrow> lookup d = Inr (label d)) \<and> (d \<le> 0 \<longrightarrow> lookup 0 = Inr (label 0))"
    by simp_all
  show ?case
    by (simp add: lookup_row_labels [OF r] Cons.IH [OF rs])
qed

lemma append_success:
  assumes "parsed \<noteq> []"
    and "\<forall>row\<in>set (map snd parsed). \<forall>d\<in>set row.
           (d > 0 \<longrightarrow> lookup d = Inr (label d)) \<and> (d \<le> 0 \<longrightarrow> lookup 0 = Inr (label 0))"
  shows "append_batch lookup ev sents parsed =
           (None, ev\<lparr>sentences := sentences ev @ sents,
                     heads := heads ev @ map fst parsed,
                     deprels := deprels ev @
                       map (map (\<lambda>d. if d > 0 then label d else label 0)) (map snd parsed)\<rparr>)"
  using assms(1) by (simp add: append_batch_def extend_rows_labels [OF assms(2)])

text \<open>
  Claim C5: for a batch with at least one prediction, append raises nothing and extends
  the accumulated deprels by one row of labels per sentence: for each predicted id \<open>d\<close>
  the deprel map's label of \<open>d\<close> when \<open>d > 0\<close>, and the label of id 0 otherwise
  (given that the map has a label for each id it is asked for).
\<close>

theorem append_deprel_labels:
  assumes "parsed \<noteq> []"
    and "\<forall>row\<in>set (map snd parsed). \<forall>d\<in>set row.
           (d > 0 \<longrightarrow> lookup d = Inr (label d)) \<and> (d \<le> 0 \<longrightarrow> lookup 0 = Inr (label 0))"
  shows "fst (append_batch lookup ev sents parsed) = None \<and>
         deprels (snd (append_batch lookup ev sents parsed)) =
           deprels ev @ map (map (\<lambda>d. if d > 0 then label d else label 0)) (map snd parsed)"
  by (simp add: append_success [OF assms])

lemma example_labels:
  "\<forall>row\<in>set (map snd [([2, 0 :: int], [1, -1 :: int])]). \<forall>d\<in>set row.
     (d > 0 \<longrightarrow> example_lookup d = Inr (example_label d)) \<and>
     (d \<le> 0 \<longrightarrow> example_lookup 0 = Inr (example_label 0))"
  by (simp add: example_lookup_def example_label_def)

theorem append_deprel_labels_witness:
  "fst (append_batch example_lookup fresh_evaluator [[dog, barks]] [([2, 0], [1, -1])]) = None \<and>
   deprels (snd (append_batch example_lookup fresh_evaluator [[dog, barks]] [([2, 0], [1, -1])])) =
     [[''nsubj'', ''root'']]"
proof -
  have ne: "[([2, 0 :: int], [1, -1 :: int])] \<noteq> []" by simp
  show ?thesis
    using append_deprel_labels [where parsed = "[([2, 0], [1, -1])]" and lookup = example_lookup
        and label = example_label and ev = fresh_evaluator and sents = "[[dog, barks]]",
        OF ne example_labels]
    by (simp add: example_label_def fresh_evaluator_def)
qed

text \<open>
  Claim C7: on a batch whose train flag is set, on_batch_end leaves the evaluator as it
  is. On any other batch it calls the parser on the inputs and appends the batch's
  sentences, each without its first (root) token, with the predictions; when there is at
  least one prediction and the deprel map has the labels, the three sequences are
  extended by the sentences, the predicted heads and the labels of the predicted deprels.
\<close>

theorem on_batch_end_effect:
  "(train data \<longrightarrow> on_batch_end parse lookup ev data = (None, ev)) \<and>
   (\<not> train data \<longrightarrow>
      (\<forall>parsed. parse (inputs data) = Inr parsed \<longrightarrow>
         on_batch_end parse lookup ev data = append_batch lookup ev (map (drop 1) (tokens data)) parsed \<and>
         (parsed \<noteq> [] \<and>
          (\<forall>row\<in>set (map snd parsed). \<forall>d\<in>set row.
             (d > 0 \<longrightarrow> lookup d = Inr (label d)) \<and> (d \<le> 0 \<longrightarrow> lookup 0 = Inr (label 0))) \<longrightarrow>
          on_batch_end parse lookup ev data =
            (None, ev\<lparr>sentences := sentences ev @ map (drop 1) (tokens data),
                      heads := heads ev @ map fst parsed,
                      deprels := deprels ev @
                        map (map (\<lambda>d. if d > 0 then label d else label 0)) (map snd parsed)\<rparr>))))"
proof (intro conjI impI allI)
  assume "train data"
  then show "on_batch_end parse lookup ev data = (None, ev)"
    by (simp add: on_batch_end_def)
next
  fix parsed
  assume nt: "\<not> train data" and p: "parse (inputs data) = Inr parsed"
  then show d: "on_batch_end parse lookup ev data =
      append_batch lookup ev (map (drop 1) (tokens data)) parsed"
    by (simp add: on_batch_end_def)
  assume "parsed \<noteq> [] \<and>
    (\<forall>row\<in>set (map snd parsed). \<forall>d\<in>set row.
       (d > 0 \<longrightarrow> lookup d = Inr (label d)) \<and> (d \<le> 0 \<longrightarrow> lookup 0 = Inr (label 0)))"
  then have ne: "parsed \<noteq> []" and l: "\<forall>row\<in>set (map snd parsed). \<forall>d\<in>set row.
       (d > 0 \<longrightarrow> lookup d = Inr (label d)) \<and> (d \<le> 0 \<longrightarrow> lookup 0 = Inr (label 0))"
    by blast+
  show "on_batch_end parse lookup ev data =
      (None, ev\<lparr>sentences := sentences ev @ map (drop 1) (tokens data),
                heads := heads ev @ map fst parsed,
                deprels := deprels ev @
                  map (map (\<lambda>d. if d > 0 then label d else label 0)) (map snd parsed)\<rparr>)"
    unfolding d by (rule append_success [OF ne l])
qed

theorem on_batch_end_effect_witness:
  "on_batch_end example_parse example_lookup fresh_evaluator (example_batch True) =
     (None, fresh_evaluator) \<and>
   on_batch_end example_parse example_lookup fresh_evaluator (example_batch False) =
     (None, fresh_evaluator\<lparr>sentences := [[dog, barks]], heads := [[2, 0]],
                             deprels := [[''nsubj'', ''root'']]\<rparr>)"
proof -
  have t: "train (example_batch True)" and f: "\<not> train (example_batch False)"
    by (simp_all add: example_batch_def)
  have p: "example_parse (inputs (example_batch False)) = Inr [([2, 0], [1, -1])]"
    by (simp add: example_parse_def)
  have ne: "[([2, 0 :: int], [1, -1 :: int])] \<noteq> [] \<and>
     (\<forall>row\<in>set (map snd [([2, 0 :: int], [1, -1 :: int])]). \<forall>d\<in>set row.
       (d > 0 \<longrightarrow> example_lookup d = Inr (example_label d)) \<and>
       (d \<le> 0 \<longrightarrow> example_lookup 0 = Inr (example_label 0)))"
    using example_labels by simp
  have a: "on_batch_end example_parse example_lookup fresh_evaluator (example_batch True) =
      (None, fresh_evaluator)"
    by (rule on_batch_end_effect [where data = "example_batch True" and parse = example_parse
          and lookup = example_lookup and ev = fresh_evaluator, THEN conjunct1, rule_format, OF t])
  have b: "on_batch_end example_parse example_lookup fresh_evaluator (example_batch False) =
      (None, fresh_evaluator\<lparr>sentences := sentences fresh_evaluator @ map (drop 1) (tokens (example_batch False)),
                      heads := heads fresh_evaluator @ map fst [([2, 0 :: int], [1, -1 :: int])],
                      deprels := deprels fresh_evaluator @
                        map (map (\<lambda>d. if d > 0 then example_label d else example_label 0))
                          (map snd [([2, 0 :: int], [1, -1 :: int])])\<rparr>)"
    by (rule on_batch_end_effect [where data = "example_batch False" and parse = example_parse
          and lookup = example_lookup and ev = fresh_evaluator and label = example_label,
          THEN conjunct2, rule_format, OF f p, THEN conjunct2, rule_format, OF ne])
  show ?thesis
    unfolding a b
    by (simp add: example_batch_def example_label_def fresh_evaluator_def)
qed


text \<open>
  Claim C10: append with no predictions raises (the unpacking of \<^verbatim>\<open>zip()\<close> fails with
  ValueError) after the sentences have been extended by the batch; heads and deprels are
  as before. So the sentences are longer by the batch while the other two sequences keep
  their lengths.
\<close>

theorem append_empty_predictions:
  "append_batch lookup ev sents [] = (Some ValueError, ev\<lparr>sentences := sentences ev @ sents\<rparr>) \<and>
   sentences (snd (append_batch lookup ev sents [])) = sentences ev @ sents \<and>
   heads (snd (append_batch lookup ev sents [])) = heads ev \<and>
   deprels (snd (append_batch lookup ev sents [])) = deprels ev \<and>
   length (sentences (snd (append_batch lookup ev sents []))) = length (sentences ev) + length sents \<and>
   length (heads (snd (append_batch lookup ev sents []))) = length (heads ev) \<and>
   length (deprels (snd (append_batch lookup ev sents []))) = length (deprels ev)"
  by (simp add: append_batch_def)

section \<open>report\<close>

lemma write_conll_gold: "\<exists>gold. write_conll sents None None = Inr gold"
proof -
  have h: "case None :: int list list option of None \<Rightarrow> map (map head) sents = map (map head) sents
      | Some hs \<Rightarrow> map (map head) sents = drop 0 hs \<and> covers sents (map (map head) sents)"
    and d: "case None :: string list list option of None \<Rightarrow> map (map deprel) sents = map (map deprel) sents
      | Some ds \<Rightarrow> map (map deprel) sents = drop 0 ds \<and> covers sents (map (map deprel) sents)"
    by simp_all
  show ?thesis
    unfolding write_conll_def write_sentences_zip [OF h d] by blast
qed

lemma write_conll_Nil: "write_conll [] given_heads given_deprels = Inr []"
  by (simp add: write_conll_def)

lemma write_conll_covered:
  assumes "covers sents hs" and "covers sents ds"
  shows "\<exists>hyp. write_conll sents (Some hs) (Some ds) = Inr hyp"
proof -
  have h: "case Some hs of None \<Rightarrow> hs = map (map head) sents
      | Some hs' \<Rightarrow> hs = drop 0 hs' \<and> covers sents hs"
    and d: "case Some ds of None \<Rightarrow> ds = map (map deprel) sents
      | Some ds' \<Rightarrow> ds = drop 0 ds' \<and> covers sents ds"
    using assms by simp_all
  show ?thesis
    unfolding write_conll_def write_sentences_zip [OF h d] by blast
qed

lemma exec_eval_undecoded:
  "proc_output (run (exec_command parsed_file gfile show_details)) = Inl e \<Longrightarrow>
   exec_eval run parsed_file gfile show_details =
     (exec_command parsed_file gfile show_details, Inl e)"
  by (simp add: exec_eval_def Let_def)

lemma exec_eval_decoded:
  "proc_output (run (exec_command parsed_file gfile show_details)) = Inr output \<Longrightarrow>
   exec_eval run parsed_file gfile show_details =
     (exec_command parsed_file gfile show_details,
      if returncode (run (exec_command parsed_file gfile show_details)) = 0
      then (case parse_scores output of
              Inl e \<Rightarrow> Inl e
            | Inr (las, uas) \<Rightarrow>
                Inr \<lparr>code = 0, raw = output, result_UAS = Some uas, result_LAS = Some las\<rparr>)
      else Inr \<lparr>code = returncode (run (exec_command parsed_file gfile show_details)),
                raw = output, result_UAS = None, result_LAS = None\<rparr>)"
  by (simp add: exec_eval_def Let_def split: sum.splits prod.splits)

lemma accumulated_covers:
  "covers (sentences accumulated_evaluator) (heads accumulated_evaluator)"
  "covers (sentences accumulated_evaluator) (deprels accumulated_evaluator)"
  by (simp_all add: accumulated_evaluator_def fresh_evaluator_def)

lemma parse_empty: "parse_scores [] = Inl IndexError"
  by code_simp

lemma short_hyp:
  "write_conll (sentences short_evaluator) (Some (heads short_evaluator))
     (Some (deprels short_evaluator)) = Inl IndexError"
  by (simp add: short_evaluator_def fresh_evaluator_def write_conll_def token_line_def
        head_field_def deprel_field_def getitem_def)

text \<open>
  Claim C1, as stated: for every accumulated state, report scores the hypothesis, stores
  the UAS and LAS of any attempt that exits with code 0, and logs rather than raises when
  both attempts exit with another code. It does not, in three ways. After an append that
  raised nothing, heads can be shorter than a sentence, and report raises IndexError
  before any scoring. An attempt that exits with code 0 and prints nothing raises
  IndexError: nothing is stored and nothing is logged. A failing attempt whose standard
  error is not UTF-8 raises UnicodeDecodeError: nothing is logged.
\<close>

theorem report_raises_counterexample:
  "append_batch example_lookup fresh_evaluator [[dog, barks]] [([2], [1])] =
     (None, short_evaluator) \<and>
   report percent_scorer short_evaluator False = (Some IndexError, short_evaluator) \<and>
   fst (report silent_scorer accumulated_evaluator False) = Some IndexError \<and>
   UAS (snd (report silent_scorer accumulated_evaluator False)) = None \<and>
   LAS (snd (report silent_scorer accumulated_evaluator False)) = None \<and>
   logged (snd (report silent_scorer accumulated_evaluator False)) = [] \<and>
   fst (report garbled_scorer accumulated_evaluator False) = Some UnicodeDecodeError \<and>
   logged (snd (report garbled_scorer accumulated_evaluator False)) = []"
proof -
  have a: "append_batch example_lookup fresh_evaluator [[dog, barks]] [([2], [1])] =
      (None, short_evaluator)"
    by (simp add: append_batch_def example_lookup_def short_evaluator_def fresh_evaluator_def)
  have b: "report percent_scorer short_evaluator False = (Some IndexError, short_evaluator)"
    by (simp add: report_def short_hyp)
  obtain hyp where hyp: "write_conll (sentences accumulated_evaluator)
      (Some (heads accumulated_evaluator)) (Some (deprels accumulated_evaluator)) = Inr hyp"
    using write_conll_covered [OF accumulated_covers] by blast
  have u: "UAS accumulated_evaluator = None" "LAS accumulated_evaluator = None"
    "logged accumulated_evaluator = []"
    by (simp_all add: accumulated_evaluator_def fresh_evaluator_def)
  have c: "report silent_scorer accumulated_evaluator False =
      (Some IndexError, accumulated_evaluator\<lparr>executed := executed accumulated_evaluator @
         [exec_command (Temp hyp) (Path (gold_file accumulated_evaluator)) False]\<rparr>)"
    by (simp add: report_def hyp exec_eval_def proc_output_def decode_utf8_def silent_scorer_def
          parse_empty)
  have d: "report garbled_scorer accumulated_evaluator False =
      (Some UnicodeDecodeError, accumulated_evaluator\<lparr>executed := executed accumulated_evaluator @
         [exec_command (Temp hyp) (Path (gold_file accumulated_evaluator)) False]\<rparr>)"
    by (simp add: report_def hyp exec_eval_def proc_output_def decode_utf8_def garbled_scorer_def)
  show ?thesis
    unfolding a b c d by (simp add: u)
qed

text \<open>
  Claim C1, amended: for a state whose heads and deprels cover its sentences, report
  encodes the hypothesis and scores it against the configured gold file. Exactly when
  that attempt exits with a code other than 0 (and its standard error decodes), it
  encodes the gold reference from the same sentences with no overrides and scores the
  same hypothesis against it: the commands run are then two, otherwise one. An attempt
  that exits with code 0 and whose standard output decodes and parses has its UAS and LAS
  stored in the state. When the retry exits with another code too and its standard error
  decodes, UAS and LAS stay as they were, the failure is logged with the code and the
  text, and nothing is raised. An attempt whose chosen stream does not decode, or that
  exits with code 0 and prints what does not parse, raises: nothing is stored or logged.
\<close>

theorem report_attempts:
  assumes "covers (sentences ev) (heads ev)" and "covers (sentences ev) (deprels ev)"
  shows "\<exists>hyp gold.
    write_conll (sentences ev) (Some (heads ev)) (Some (deprels ev)) = Inr hyp \<and>
    write_conll (sentences ev) None None = Inr gold \<and>
    (let c1 = exec_command (Temp hyp) (Path (gold_file ev)) show_details;
         c2 = exec_command (Temp hyp) (Temp gold) show_details;
         p1 = run c1;
         p2 = run c2
     in (\<forall>e. proc_output p1 = Inl e \<longrightarrow>
           report run ev show_details = (Some e, ev\<lparr>executed := executed ev @ [c1]\<rparr>)) \<and>
        (\<forall>out1. proc_output p1 = Inr out1 \<longrightarrow>
           (returncode p1 = 0 \<longrightarrow>
              (\<forall>las uas. parse_scores out1 = Inr (las, uas) \<longrightarrow>
                 report run ev show_details =
                   (None, ev\<lparr>UAS := Some uas, LAS := Some las,
                             logged := logged ev @ [''[evaluation]'' @ NL @ rstrip out1],
                             executed := executed ev @ [c1]\<rparr>)) \<and>
              (\<forall>e. parse_scores out1 = Inl e \<longrightarrow>
                 report run ev show_details = (Some e, ev\<lparr>executed := executed ev @ [c1]\<rparr>))) \<and>
           (returncode p1 \<noteq> 0 \<longrightarrow>
              (\<forall>e. proc_output p2 = Inl e \<longrightarrow>
                 report run ev show_details =
                   (Some e, ev\<lparr>executed := executed ev @ [c1, c2]\<rparr>)) \<and>
              (\<forall>out2. proc_output p2 = Inr out2 \<longrightarrow>
                 (returncode p2 = 0 \<longrightarrow>
                    (\<forall>las uas. parse_scores out2 = Inr (las, uas) \<longrightarrow>
                       report run ev show_details =
                         (None, ev\<lparr>UAS := Some uas, LAS := Some las,
                                   logged := logged ev @ [''[evaluation]'' @ NL @ rstrip out2],
                                   executed := executed ev @ [c1, c2]\<rparr>)) \<and>
                    (\<forall>e. parse_scores out2 = Inl e \<longrightarrow>
                       report run ev show_details =
                         (Some e, ev\<lparr>executed := executed ev @ [c1, c2]\<rparr>))) \<and>
                 (returncode p2 \<noteq> 0 \<longrightarrow>
                    report run ev show_details =
                      (None, ev\<lparr>logged := logged ev @
                                  [''[evaluation] ERROR('' @ str_int (returncode p2) @ ''): '' @
                                   rstrip out2],
                                executed := executed ev @ [c1, c2]\<rparr>))))))"
proof -
  obtain hyp where hyp: "write_conll (sentences ev) (Some (heads ev)) (Some (deprels ev)) = Inr hyp"
    using write_conll_covered [OF assms] by blast
  obtain gold where gold: "write_conll (sentences ev) None None = Inr gold"
    using write_conll_gold by blast
  let ?c1 = "exec_command (Temp hyp) (Path (gold_file ev)) show_details"
  let ?c2 = "exec_command (Temp hyp) (Temp gold) show_details"
  have u1: "proc_output (run ?c1) = Inl e \<Longrightarrow>
      report run ev show_details = (Some e, ev\<lparr>executed := executed ev @ [?c1]\<rparr>)" for e
    by (simp add: report_def hyp exec_eval_undecoded)
  have a: "proc_output (run ?c1) = Inr out1 \<Longrightarrow> returncode (run ?c1) = 0 \<Longrightarrow>
      parse_scores out1 = Inr (las, uas) \<Longrightarrow>
      report run ev show_details =
        (None, ev\<lparr>UAS := Some uas, LAS := Some las,
                  logged := logged ev @ [''[evaluation]'' @ NL @ rstrip out1],
                  executed := executed ev @ [?c1]\<rparr>)" for out1 las uas
    by (simp add: report_def hyp exec_eval_decoded)
  have b: "proc_output (run ?c1) = Inr out1 \<Longrightarrow> returncode (run ?c1) = 0 \<Longrightarrow>
      parse_scores out1 = Inl e \<Longrightarrow>
      report run ev show_details = (Some e, ev\<lparr>executed := executed ev @ [?c1]\<rparr>)" for out1 e
    by (simp add: report_def hyp exec_eval_decoded)
  have u2: "proc_output (run ?c1) = Inr out1 \<Longrightarrow> returncode (run ?c1) \<noteq> 0 \<Longrightarrow>
      proc_output (run ?c2) = Inl e \<Longrightarrow>
      report run ev show_details = (Some e, ev\<lparr>executed := executed ev @ [?c1, ?c2]\<rparr>)" for out1 e
    by (simp add: report_def hyp gold exec_eval_decoded exec_eval_undecoded)
  have c: "proc_output (run ?c1) = Inr out1 \<Longrightarrow> returncode (run ?c1) \<noteq> 0 \<Longrightarrow>
      proc_output (run ?c2) = Inr out2 \<Longrightarrow> returncode (run ?c2) = 0 \<Longrightarrow>
      parse_scores out2 = Inr (las, uas) \<Longrightarrow>
      report run ev show_details =
        (None, ev\<lparr>UAS := Some uas, LAS := Some las,
                  logged := logged ev @ [''[evaluation]'' @ NL @ rstrip out2],
                  executed := executed ev @ [?c1, ?c2]\<rparr>)" for out1 out2 las uas
    by (simp add: report_def hyp gold exec_eval_decoded)
  have d: "proc_output (run ?c1) = Inr out1 \<Longrightarrow> returncode (run ?c1) \<noteq> 0 \<Longrightarrow>
      proc_output (run ?c2) = Inr out2 \<Longrightarrow> returncode (run ?c2) = 0 \<Longrightarrow>
      parse_scores out2 = Inl e \<Longrightarrow>
      report run ev show_details = (Some e, ev\<lparr>executed := executed ev @ [?c1, ?c2]\<rparr>)"
    for out1 out2 e
    by (simp add: report_def hyp gold exec_eval_decoded)
  have e: "proc_output (run ?c1) = Inr out1 \<Longrightarrow> returncode (run ?c1) \<noteq> 0 \<Longrightarrow>
      proc_output (run ?c2) = Inr out2 \<Longrightarrow> returncode (run ?c2) \<noteq> 0 \<Longrightarrow>
      report run ev show_details =
        (None, ev\<lparr>logged := logged ev @
                    [''[evaluation] ERROR('' @ str_int (returncode (run ?c2)) @ ''): '' @
                     rstrip out2],
                  executed := executed ev @ [?c1, ?c2]\<rparr>)" for out1 out2
    by (simp add: report_def hyp gold exec_eval_decoded)
  show ?thesis
    unfolding Let_def using hyp gold u1 a b u2 c d e by blast
qed

theorem report_attempts_witness:
  "fst (report retry_scorer accumulated_evaluator False) = None \<and>
   UAS (snd (report retry_scorer accumulated_evaluator False)) = Some (PyFloat ''91.4'') \<and>
   LAS (snd (report retry_scorer accumulated_evaluator False)) = Some (PyFloat ''88.2'') \<and>
   length (executed (snd (report retry_scorer accumulated_evaluator False))) = 2 \<and>
   fst (report failing_scorer accumulated_evaluator False) = None \<and>
   UAS (snd (report failing_scorer accumulated_evaluator False)) = None \<and>
   LAS (snd (report failing_scorer accumulated_evaluator False)) = None \<and>
   length (logged (snd (report failing_scorer accumulated_evaluator False))) = 1"
proof -
  have g: "gold_file accumulated_evaluator = ''gold.conll''"
    by (simp add: accumulated_evaluator_def fresh_evaluator_def)
  have u: "UAS accumulated_evaluator = None" "LAS accumulated_evaluator = None"
    "logged accumulated_evaluator = []" "executed accumulated_evaluator = []"
    by (simp_all add: accumulated_evaluator_def fresh_evaluator_def)
  have 1: "\<exists>c1 c2. report retry_scorer accumulated_evaluator False =
      (None, accumulated_evaluator\<lparr>UAS := Some (PyFloat ''91.4''), LAS := Some (PyFloat ''88.2''),
         logged := logged accumulated_evaluator @ [''[evaluation]'' @ NL @ rstrip percent_stdout],
         executed := executed accumulated_evaluator @ [c1, c2]\<rparr>)"
    using report_attempts [OF accumulated_covers, where run = retry_scorer and show_details = False]
    by (auto simp add: Let_def exec_command_def retry_scorer_def g parse_percent proc_output_def
          decode_utf8_def)
  have 2: "\<exists>c1 c2. report failing_scorer accumulated_evaluator False =
      (None, accumulated_evaluator\<lparr>logged := logged accumulated_evaluator @
                         [''[evaluation] ERROR('' @ str_int 1 @ ''): '' @ rstrip ''mismatch''],
         executed := executed accumulated_evaluator @ [c1, c2]\<rparr>)"
    using report_attempts [OF accumulated_covers, where run = failing_scorer and show_details = False]
    by (auto simp add: Let_def failing_scorer_def proc_output_def decode_utf8_def)
  from 1 2 show ?thesis
    by (auto simp add: u)
qed

text \<open>
  Claim C9, as stated: reset followed by report raises nothing, whatever the scorer
  returns. It does: a scorer that exits with code 0 and prints nothing makes
  \<^verbatim>\<open>line.rsplit(' ', 2)[-2]\<close> raise IndexError.
\<close>

theorem reset_report_empty_output_raises:
  "fst (report silent_scorer (reset fresh_evaluator) False) = Some IndexError"
  by (simp add: report_def reset_def fresh_evaluator_def write_conll_Nil exec_eval_def
        proc_output_def decode_utf8_def silent_scorer_def parse_empty)

text \<open>
  Claim C9, amended: reset followed by report, with no sentences accumulated, raises
  nothing exactly when the chosen stream of each scoring attempt decodes as UTF-8
  (standard output on exit code 0, standard error otherwise) and each attempt that exits
  with code 0 prints an output that parses (the first two lines each with a
  second-to-last space-separated field that \<^verbatim>\<open>float\<close> accepts); in particular when
  both attempts exit with another code and their standard errors decode. Both files are
  then empty.
\<close>

theorem reset_report_returns_iff:
  "fst (report run (reset ev) show_details) = None \<longleftrightarrow>
     (let p1 = run (exec_command (Temp []) (Path (gold_file ev)) show_details);
          p2 = run (exec_command (Temp []) (Temp []) show_details)
      in (\<exists>out1. proc_output p1 = Inr out1 \<and>
            (returncode p1 = 0 \<longrightarrow> (\<exists>v. parse_scores out1 = Inr v))) \<and>
         (returncode p1 \<noteq> 0 \<longrightarrow>
            (\<exists>out2. proc_output p2 = Inr out2 \<and>
               (returncode p2 = 0 \<longrightarrow> (\<exists>v. parse_scores out2 = Inr v)))))"
proof -
  let ?p1 = "run (exec_command (Temp []) (Path (gold_file ev)) show_details)"
  let ?p2 = "run (exec_command (Temp []) (Temp []) show_details)"
  have s: "sentences (reset ev) = []" "heads (reset ev) = []" "deprels (reset ev) = []"
    "gold_file (reset ev) = gold_file ev"
    by (simp_all add: reset_def)
  show ?thesis
  proof (cases "proc_output ?p1")
    case (Inl e)
    then show ?thesis
      by (simp add: report_def s write_conll_Nil exec_eval_undecoded Let_def)
  next
    case out1: (Inr out1)
    show ?thesis
    proof (cases "returncode ?p1 = 0")
      case True
      with out1 show ?thesis
        by (cases "parse_scores out1")
           (auto simp add: report_def s write_conll_Nil exec_eval_decoded Let_def)
    next
      case n1: False
      show ?thesis
      proof (cases "proc_output ?p2")
        case (Inl e)
        with out1 n1 show ?thesis
          by (simp add: report_def s write_conll_Nil exec_eval_decoded exec_eval_undecoded Let_def)
      next
        case out2: (Inr out2)
        show ?thesis
        proof (cases "returncode ?p2 = 0")
          case True
          with out1 n1 out2 show ?thesis
            by (cases "parse_scores out2")
               (auto simp add: report_def s write_conll_Nil exec_eval_decoded Let_def)
        next
          case False
          with out1 n1 out2 show ?thesis
            by (simp add: report_def s write_conll_Nil exec_eval_decoded Let_def)
        qed
      qed
    qed
  qed
qed

theorem reset_report_returns_iff_witness:
  "fst (report failing_scorer (reset accumulated_evaluator) False) = None \<and>
   fst (report percent_scorer (reset accumulated_evaluator) False) = None \<and>
   fst (report garbled_scorer (reset accumulated_evaluator) False) \<noteq> None"
proof -
  have a: "fst (report failing_scorer (reset accumulated_evaluator) False) = None"
    unfolding reset_report_returns_iff [where run = failing_scorer and ev = accumulated_evaluator
        and show_details = False]
    by (simp add: failing_scorer_def proc_output_def decode_utf8_def)
  have b: "fst (report percent_scorer (reset accumulated_evaluator) False) = None"
    unfolding reset_report_returns_iff [where run = percent_scorer and ev = accumulated_evaluator
        and show_details = False]
    by (simp add: percent_scorer_def parse_percent proc_output_def decode_utf8_def)
  have c: "fst (report garbled_scorer (reset accumulated_evaluator) False) \<noteq> None"
    unfolding reset_report_returns_iff [where run = garbled_scorer and ev = accumulated_evaluator
        and show_details = False]
    by (simp add: garbled_scorer_def proc_output_def decode_utf8_def)
  from a b c show ?thesis by simp
qed

text \<open>report changes nothing but UAS, LAS, the log and the commands run.\<close>

lemma report_frame:
  "sentences (snd (report run ev sd)) = sentences ev \<and>
   heads (snd (report run ev sd)) = heads ev \<and>
   deprels (snd (report run ev sd)) = deprels ev \<and>
   gold_file (snd (report run ev sd)) = gold_file ev"
  by (simp add: report_def Let_def split: sum.splits prod.splits)

text \<open>What report leaves in UAS and LAS, from the outcomes of the attempts alone.\<close>

lemma report_scores:
  "(UAS (snd (report run ev sd)), LAS (snd (report run ev sd))) =
     (case write_conll (sentences ev) (Some (heads ev)) (Some (deprels ev)) of
        Inl e \<Rightarrow> (UAS ev, LAS ev)
      | Inr hyp \<Rightarrow>
          (case snd (exec_eval run (Temp hyp) (Path (gold_file ev)) sd) of
             Inl e \<Rightarrow> (UAS ev, LAS ev)
           | Inr r1 \<Rightarrow>
               if code r1 \<noteq> 0
               then (case write_conll (sentences ev) None None of
                       Inl e \<Rightarrow> (UAS ev, LAS ev)
                     | Inr gold \<Rightarrow>
                         (case snd (exec_eval run (Temp hyp) (Temp gold) sd) of
                            Inl e \<Rightarrow> (UAS ev, LAS ev)
                          | Inr r2 \<Rightarrow>
                              if code r2 = 0 then (result_UAS r2, result_LAS r2)
                              else (UAS ev, LAS ev)))
               else (result_UAS r1, result_LAS r1)))"
  by (simp add: report_def Let_def split: sum.splits prod.splits)

lemma exec_eval_quiet:
  assumes "sd' = sd \<or> (\<forall>c. run (c @ [Opt ''-q'']) = run c)"
  shows "snd (exec_eval run parsed_file gfile sd') = snd (exec_eval run parsed_file gfile sd)"
proof -
  have q: "exec_command parsed_file gfile False = exec_command parsed_file gfile True @ [Opt ''-q'']"
    by (simp add: exec_command_def)
  have r: "run (exec_command parsed_file gfile sd') = run (exec_command parsed_file gfile sd)"
  proof (cases "sd' = sd")
    case True
    then show ?thesis by simp
  next
    case False
    with assms have "run (exec_command parsed_file gfile False) = run (exec_command parsed_file gfile True)"
      unfolding q by blast
    with False show ?thesis by (cases sd; cases sd') simp_all
  qed
  show ?thesis
    unfolding exec_eval_def Let_def snd_conv r by (rule refl)
qed

text \<open>
  Claim C6: the scorer being a function of its command, a second report right after a
  first leaves the same UAS and LAS as the first did. The two calls may differ in
  \<open>show_details\<close> when the scorer's result does not depend on \<^verbatim>\<open>-q\<close>.
\<close>

theorem report_twice:
  assumes "report run ev show_details = (e1, ev1)"
    and "report run ev1 show_details' = (e2, ev2)"
    and "show_details' = show_details \<or> (\<forall>c. run (c @ [Opt ''-q'']) = run c)"
  shows "UAS ev2 = UAS ev1 \<and> LAS ev2 = LAS ev1"
proof -
  have ev1: "ev1 = snd (report run ev show_details)" and ev2: "ev2 = snd (report run ev1 show_details')"
    using assms(1,2) by simp_all
  have f: "sentences ev1 = sentences ev" "heads ev1 = heads ev" "deprels ev1 = deprels ev"
    "gold_file ev1 = gold_file ev"
    using report_frame [of run ev show_details] by (simp_all add: ev1)
  have q: "snd (exec_eval run parsed_file gfile show_details') =
      snd (exec_eval run parsed_file gfile show_details)" for parsed_file gfile
    by (rule exec_eval_quiet [OF assms(3)])
  have "(UAS ev2, LAS ev2) = (UAS ev1, LAS ev1)"
    unfolding ev2 report_scores [of run ev1 show_details'] f q
    using report_scores [of run ev show_details]
    by (simp add: ev1 [symmetric] split: sum.splits if_splits)
  then show ?thesis by simp
qed

theorem report_twice_witness:
  "UAS (snd (report retry_scorer (snd (report retry_scorer accumulated_evaluator False)) True)) =
     UAS (snd (report retry_scorer accumulated_evaluator False)) \<and>
   LAS (snd (report retry_scorer (snd (report retry_scorer accumulated_evaluator False)) True)) =
     LAS (snd (report retry_scorer accumulated_evaluator False)) \<and>
   UAS (snd (report retry_scorer accumulated_evaluator False)) = Some (PyFloat ''91.4'')"
proof -
  have a: "report retry_scorer accumulated_evaluator False =
      (fst (report retry_scorer accumulated_evaluator False),
       snd (report retry_scorer accumulated_evaluator False))"
    by simp
  have b: "report retry_scorer (snd (report retry_scorer accumulated_evaluator False)) True =
      (fst (report retry_scorer (snd (report retry_scorer accumulated_evaluator False)) True),
       snd (report retry_scorer (snd (report retry_scorer accumulated_evaluator False)) True))"
    by simp
  have c: "True = False \<or> (\<forall>c. retry_scorer (c @ [Opt ''-q'']) = retry_scorer c)"
    by (simp add: retry_scorer_def)
  obtain hyp where enc: "write_conll (sentences accumulated_evaluator)
      (Some (heads accumulated_evaluator)) (Some (deprels accumulated_evaluator)) = Inr hyp"
    using write_conll_covered [OF accumulated_covers] by blast
  obtain gold where gold: "write_conll (sentences accumulated_evaluator) None None = Inr gold"
    using write_conll_gold by blast
  have g: "gold_file accumulated_evaluator = ''gold.conll''"
    and u: "UAS accumulated_evaluator = None"
    by (simp_all add: accumulated_evaluator_def fresh_evaluator_def)
  have d: "UAS (snd (report retry_scorer accumulated_evaluator False)) = Some (PyFloat ''91.4'')"
    by (simp add: report_def enc gold g exec_eval_def exec_command_def retry_scorer_def parse_percent
          proc_output_def decode_utf8_def)
  from report_twice [OF a b c] d show ?thesis by simp
qed

end
